theory Spec2Isabelle
  imports Complex_Main
begin

section \<open>Data model (lib/supabase: the database row types)\<close>

text \<open>
  The JavaScript values are modelled as follows: \<open>number\<close> fields that hold database
  integers (season, week, pick_limit) are \<open>int\<close>; spreads and points are \<open>real\<close>
  (NaN and the infinities are not modelled); an optional or nullable field is an
  \<open>option\<close>. A timestamp is the number of milliseconds since the epoch (UTC), the
  time value of a JavaScript \<open>Date\<close>.
\<close>

datatype side = HOME | AWAY

datatype pick_result = WIN | LOSS | PUSH

datatype role = commish | player

text \<open>
  A string that is handed to \<open>new Date(...)\<close>: the empty string (falsy in JavaScript),
  a string that parses to the time value \<open>t\<close> (what \<open>toISOString\<close> produces and what the
  timestamp columns return), or a non-empty string that does not parse (\<open>new Date\<close>
  then yields an Invalid Date, whose time value is NaN).
\<close>

datatype datetime_string = EmptyString | IsoTime int | NotADate

record league =
  lg_id :: string
  lg_name :: string
  invite_code :: string
  created_by :: string
  pick_limit :: "int option"
  push_points :: real
  lg_created_at :: string
  role :: role

record game =
  g_id :: string
  g_season :: int
  g_week :: int
  home :: string
  away :: string
  kickoff :: string
  status :: string
  g_created_at :: string

record slate_row =
  sl_league_id :: string
  sl_season :: int
  sl_week :: int
  sl_game_id :: string
  spread_home :: "real option"
  spread_away :: "real option"
  source :: string
  snapped_at :: string
  lines_available :: "bool option"
  publish_window :: "string option"
  lines_published_at :: "string option"
  games :: "game option"

text \<open>
  The object literal that \<open>submitAllPicks\<close> hands to \<open>upsert\<close> has nine of the columns of
  a \<open>Pick\<close>; a \<open>Pick\<close> extends it by the columns the server manages.
\<close>

record pick_write =
  league_id :: string
  user_id :: string
  season :: int
  week :: int
  game_id :: string
  side :: side
  line_value :: real
  unlock_at :: "datetime_string option"
  locked :: bool

record pick = pick_write +
  result :: "pick_result option"
  points :: "real option"
  created_at :: datetime_string
  updated_at :: datetime_string

record game_with_line =
  game :: game
  line :: slate_row
  existingPick :: "pick option"

section \<open>JavaScript Date and the local time zone\<close>

text \<open>
  A \<open>Date\<close> is its time value, in milliseconds since the epoch in UTC. \<open>Day\<close>,
  \<open>TimeWithinDay\<close> and \<open>WeekDay\<close> are the abstract operations of ECMAScript: day 0 is
  Thursday 1 January 1970, and week day 0 is Sunday. The clock is taken to read far from
  the ends of the range of time values, so that no result below leaves it.

  The local time zone is given by the two readings ECMAScript takes of it: the offset in
  force at a UTC time value (LocalTZA with isUTC true) and the offset by which a local
  time value is read (LocalTZA with isUTC false; a local time that a change of offset
  skips or repeats is read with the offset from before the change). Each local-time
  method reads the time value as local time with the first, changes fields, and goes
  back to UTC with the second.
\<close>

type_synonym date = int

record zone =
  tza_utc :: "int \<Rightarrow> int"
  tza_local :: "int \<Rightarrow> int"

definition msPerDay :: int where
  "msPerDay = 86400000"

definition msPerHour :: int where
  "msPerHour = 3600000"

definition LocalTime :: "zone \<Rightarrow> date \<Rightarrow> int" where
  "LocalTime z t = t + tza_utc z t"

definition UTC :: "zone \<Rightarrow> int \<Rightarrow> date" where
  "UTC z l = l - tza_local z l"

definition Day :: "int \<Rightarrow> int" where
  "Day t = t div msPerDay"

definition TimeWithinDay :: "int \<Rightarrow> int" where
  "TimeWithinDay t = t mod msPerDay"

definition WeekDay :: "int \<Rightarrow> int" where
  "WeekDay t = (Day t + 4) mod 7"

definition Date_getDay :: "zone \<Rightarrow> date \<Rightarrow> int" where
  "Date_getDay z d = WeekDay (LocalTime z d)"

definition Date_getHours :: "zone \<Rightarrow> date \<Rightarrow> int" where
  "Date_getHours z d = TimeWithinDay (LocalTime z d) div msPerHour"

text \<open>
  \<open>d.setDate(d.getDate() + k)\<close>: the day of the month may leave the month, and
  ECMAScript's MakeDay then counts on into the neighbouring month, so the local day
  number moves by \<open>k\<close> and the local time within the day stays.
\<close>

definition Date_addToDate :: "zone \<Rightarrow> int \<Rightarrow> date \<Rightarrow> date" where
  "Date_addToDate z k d =
     UTC z ((Day (LocalTime z d) + k) * msPerDay + TimeWithinDay (LocalTime z d))"

text \<open>\<open>d.setHours(h, m, s, ms)\<close> and \<open>d.setHours(h)\<close> (minutes and below are kept).\<close>

definition Date_setHours4 :: "zone \<Rightarrow> int \<Rightarrow> int \<Rightarrow> int \<Rightarrow> int \<Rightarrow> date \<Rightarrow> date" where
  "Date_setHours4 z h m s ms d =
     UTC z (Day (LocalTime z d) * msPerDay + (h * msPerHour + m * 60000 + s * 1000 + ms))"

definition Date_setHours :: "zone \<Rightarrow> int \<Rightarrow> date \<Rightarrow> date" where
  "Date_setHours z h d =
     UTC z (Day (LocalTime z d) * msPerDay
              + (h * msPerHour + TimeWithinDay (LocalTime z d) mod msPerHour))"

text \<open>Lines 170 to 178 of the slate screen: the value of \<open>saturdayUnlock\<close>.\<close>

definition saturdayUnlock :: "zone \<Rightarrow> date \<Rightarrow> date" where
  "saturdayUnlock z currentDate =
     (let currentWeekStart = Date_addToDate z (- Date_getDay z currentDate) currentDate;
          saturday = Date_addToDate z 6 currentWeekStart;
          noon = Date_setHours4 z 12 0 0 0 saturday
      in Date_setHours z (Date_getHours z noon + 5) noon)"

section \<open>The slate screen: state, environment and effects\<close>

text \<open>
  The screen is a React function component. Its state lives in \<open>useState\<close> cells; a
  handler is created anew by every render and reads the state values of the render that
  created it; \<open>setX v\<close> replaces the live cell. So a handler is a function from the
  state of its render (and the answers of the outside world) to the effects it issues,
  in order, and \<open>commit\<close> applies the state setters among them to the live state.
\<close>

record slate_screen =
  leagueId :: string
  league :: "league option"
  gamesWithLines :: "game_with_line list"
  picks :: "pick list"
  tempPicks :: "pick list"
  loading :: bool
  refreshing :: bool
  submitting :: bool
  currentWeek :: int

definition currentSeason :: int where
  "currentSeason = 2025"

datatype auth_result = AuthUser string | AuthNoUser | AuthThrows

text \<open>
  What the outside world answers during one run of a handler: the result of
  \<open>supabase.auth.getUser()\<close>, the readings of the clock (\<open>new Date()\<close> at lines 170, 191
  and 192), the local time zone, whether the upsert and the select on
  \<open>picks\<close> report an error, the rows the select on \<open>league_slate_lines\<close> returns
  (\<open>None\<close> for an error), and the timestamp the database gives to an inserted row. One
  answer of \<open>getUser\<close> serves every call of it within the run.
\<close>

record env =
  auth :: auth_result
  now :: date
  now_created :: date
  now_updated :: date
  tz :: zone
  upsert_error :: bool
  slate_response :: "slate_row list option"
  picks_error :: bool
  db_now :: datetime_string

datatype alert =
    PickAlreadySubmitted
  | PickLimitReached int
  | PickSelected side real nat int
  | AllPicksSelected int
  | FailedToSelectPick
  | PicksSubmitted nat string
  | FailedToSubmitPicks
  | FailedToLoadSlate

datatype effect =
    AuthGetUser
  | SelectSlate
  | SelectPicks
  | UpsertPicks "pick_write list"
  | SetLoading bool
  | SetRefreshing bool
  | SetSubmitting bool
  | SetGamesWithLines "game_with_line list"
  | SetPicks "pick list"
  | SetTempPicks "pick list"
  | ShowAlert alert
  | ShowAlertAfter nat alert
  | ConsoleError

fun apply_effect :: "effect \<Rightarrow> slate_screen \<Rightarrow> slate_screen" where
  "apply_effect (SetLoading b) s = s\<lparr>loading := b\<rparr>"
| "apply_effect (SetRefreshing b) s = s\<lparr>refreshing := b\<rparr>"
| "apply_effect (SetSubmitting b) s = s\<lparr>submitting := b\<rparr>"
| "apply_effect (SetGamesWithLines g) s = s\<lparr>gamesWithLines := g\<rparr>"
| "apply_effect (SetPicks p) s = s\<lparr>picks := p\<rparr>"
| "apply_effect (SetTempPicks p) s = s\<lparr>tempPicks := p\<rparr>"
| "apply_effect _ s = s"

definition commit :: "effect list \<Rightarrow> slate_screen \<Rightarrow> slate_screen" where
  "commit effs s = fold apply_effect effs s"

fun is_network_call :: "effect \<Rightarrow> bool" where
  "is_network_call AuthGetUser = True"
| "is_network_call SelectSlate = True"
| "is_network_call SelectPicks = True"
| "is_network_call (UpsertPicks _) = True"
| "is_network_call _ = False"

section \<open>handlePickSide\<close>

text \<open>\<open>league.pick_limit || 5\<close>: null, undefined and 0 are falsy.\<close>

definition pickLimit_of :: "league \<Rightarrow> int" where
  "pickLimit_of lg = (case pick_limit lg of None \<Rightarrow> 5 | Some n \<Rightarrow> if n = 0 then 5 else n)"

definition newTempPick :: "env \<Rightarrow> slate_screen \<Rightarrow> league \<Rightarrow> string \<Rightarrow> string \<Rightarrow> side \<Rightarrow> real \<Rightarrow> pick" where
  "newTempPick e r lg u gameId sd lineValue =
     \<lparr>league_id = lg_id lg, user_id = u, season = currentSeason, week = currentWeek r,
      game_id = gameId, side = sd, line_value = lineValue,
      unlock_at = Some (IsoTime (saturdayUnlock (tz e) (now e))), locked = False,
      result = None, points = None,
      created_at = IsoTime (now_created e), updated_at = IsoTime (now_updated e)\<rparr>"

definition handlePickSide :: "env \<Rightarrow> slate_screen \<Rightarrow> string \<Rightarrow> side \<Rightarrow> real \<Rightarrow> effect list" where
  "handlePickSide e r gameId sd lineValue =
     (case league r of
        None \<Rightarrow> []
      | Some lg \<Rightarrow>
         (case auth e of
            AuthThrows \<Rightarrow> [AuthGetUser, ConsoleError, ShowAlert FailedToSelectPick]
          | AuthNoUser \<Rightarrow> [AuthGetUser]
          | AuthUser u \<Rightarrow>
             (let pickLimit = pickLimit_of lg;
                  existingTempPickForGame = find (\<lambda>p. game_id p = gameId) (tempPicks r);
                  existingSubmittedPick = find (\<lambda>p. game_id p = gameId) (picks r);
                  currentTempPicksCount = int (length (tempPicks r))
              in if existingSubmittedPick \<noteq> None then
                   [AuthGetUser, ShowAlert PickAlreadySubmitted]
                 else if existingTempPickForGame = None \<and> currentTempPicksCount \<ge> pickLimit then
                   [AuthGetUser, ShowAlert (PickLimitReached pickLimit)]
                 else
                   (let new = newTempPick e r lg u gameId sd lineValue;
                        updatedTempPicks =
                          (if existingTempPickForGame \<noteq> None
                           then map (\<lambda>p. if game_id p = gameId then new else p) (tempPicks r)
                           else tempPicks r @ [new]);
                        updatedGames =
                          map (\<lambda>gwl. if g_id (game gwl) = gameId
                                      then gwl\<lparr>existingPick := Some new\<rparr> else gwl)
                              (gamesWithLines r)
                    in [AuthGetUser, SetTempPicks updatedTempPicks, SetGamesWithLines updatedGames,
                        ShowAlert (PickSelected sd lineValue (length updatedTempPicks) pickLimit)]
                       @ (if int (length updatedTempPicks) = pickLimit
                          then [ShowAlertAfter 500 (AllPicksSelected pickLimit)] else [])))))"

text \<open>
  \<open>selectSide\<close> is \<open>handlePickSide\<close> called from the render of the live state, as a
  game card does (\<open>onPickSide={handlePickSide}\<close>), with the state settled between calls.
\<close>

definition selectSide :: "env \<Rightarrow> string \<Rightarrow> side \<Rightarrow> real \<Rightarrow> slate_screen \<Rightarrow> slate_screen" where
  "selectSide e gameId sd lineValue s = commit (handlePickSide e s gameId sd lineValue) s"

fun selectSides :: "(env \<times> string \<times> side \<times> real) list \<Rightarrow> slate_screen \<Rightarrow> slate_screen" where
  "selectSides [] s = s"
| "selectSides ((e, gameId, sd, lineValue) # calls) s =
     selectSides calls (selectSide e gameId sd lineValue s)"

text \<open>Lines 296 to 300: what the render derives from the state.\<close>

definition pickLimit_render :: "slate_screen \<Rightarrow> int" where
  "pickLimit_render r = (case league r of None \<Rightarrow> 5 | Some lg \<Rightarrow> pickLimit_of lg)"

definition canSubmit :: "slate_screen \<Rightarrow> bool" where
  "canSubmit r = (int (length (tempPicks r)) = pickLimit_render r)"

section \<open>Durable storage\<close>

definition pick_key :: "'a pick_write_scheme \<Rightarrow> string \<times> string \<times> int \<times> int \<times> string" where
  "pick_key p = (league_id p, user_id p, season p, week p, game_id p)"

text \<open>
  Modelled from the spec: the table \<open>picks\<close> of the remote data service and its upsert
  are not part of the client's source. The table is the list of its rows. Following
  sections 4.1 and 6 of the specification, the upsert is keyed on (league, user, season,
  week, game): a row already present under the key of a written row is overwritten in
  the written columns, and a written row with a new key is added, with the columns the
  server manages at their defaults.
\<close>

definition upsert_row :: "datetime_string \<Rightarrow> pick_write \<Rightarrow> pick list \<Rightarrow> pick list" where
  "upsert_row stamp w db =
     (if \<exists>row \<in> set db. pick_key row = pick_key w
      then map (\<lambda>row. if pick_key row = pick_key w
                       then row\<lparr>side := side w, line_value := line_value w,
                                unlock_at := unlock_at w, locked := locked w\<rparr>
                       else row) db
      else db @ [\<lparr>league_id = league_id w, user_id = user_id w, season = season w,
                   week = week w, game_id = game_id w, side = side w,
                   line_value = line_value w, unlock_at = unlock_at w, locked = locked w,
                   result = None, points = None, created_at = stamp, updated_at = stamp\<rparr>])"

text \<open>
  Modelled from the spec: \<open>upsertPicks\<close> of section 6 takes a list of rows; they are
  written one after the other, in the order of the request.
\<close>

definition upsert :: "datetime_string \<Rightarrow> pick_write list \<Rightarrow> pick list \<Rightarrow> pick list" where
  "upsert stamp ws db = fold (upsert_row stamp) ws db"

section \<open>loadSlateAndPicks and submitAllPicks\<close>

definition loadSlateAndPicks :: "env \<Rightarrow> slate_screen \<Rightarrow> pick list \<Rightarrow> effect list" where
  "loadSlateAndPicks e r db =
     (if leagueId r = [] then []
      else [SetLoading True]
         @ (case auth e of
              AuthThrows \<Rightarrow> [AuthGetUser, ConsoleError, ShowAlert FailedToLoadSlate]
            | AuthNoUser \<Rightarrow> [AuthGetUser]
            | AuthUser u \<Rightarrow>
               [AuthGetUser, SelectSlate]
               @ (case slate_response e of
                    None \<Rightarrow> [ConsoleError, ShowAlert FailedToLoadSlate]
                  | Some slateData \<Rightarrow>
                     SelectPicks
                     # (if picks_error e then [ConsoleError, ShowAlert FailedToLoadSlate]
                        else
                          (let picksData =
                                 filter (\<lambda>p. league_id p = leagueId r \<and> user_id p = u
                                              \<and> season p = currentSeason \<and> week p = currentWeek r) db;
                               gamesWithLines =
                                 List.map_filter
                                   (\<lambda>slate. case games slate of
                                       None \<Rightarrow> None
                                     | Some g \<Rightarrow>
                                        Some \<lparr>game = g, line = slate,
                                              existingPick =
                                                find (\<lambda>p. game_id p = sl_game_id slate) picksData\<rparr>)
                                   slateData
                           in [SetGamesWithLines gamesWithLines, SetPicks picksData,
                               SetTempPicks []]))))
         @ [SetLoading False, SetRefreshing False])"

definition upsert_payload :: "pick list \<Rightarrow> pick_write list" where
  "upsert_payload ps =
     map (\<lambda>pick. \<lparr>league_id = league_id pick, user_id = user_id pick, season = season pick,
                   week = week pick, game_id = game_id pick, side = side pick,
                   line_value = line_value pick, unlock_at = unlock_at pick, locked = False\<rparr>) ps"

text \<open>
  \<open>submitAllPicks\<close> returns the effects it issues and the table after the call. The
  conflict target of the upsert is the key of \<open>pick_key\<close>.
\<close>

definition submitAllPicks :: "env \<Rightarrow> slate_screen \<Rightarrow> pick list \<Rightarrow> effect list \<times> pick list" where
  "submitAllPicks e r db =
     (case league r of
        None \<Rightarrow> ([], db)
      | Some lg \<Rightarrow>
         if length (tempPicks r) = 0 then ([], db)
         else
           (case auth e of
              AuthThrows \<Rightarrow>
                ([SetSubmitting True, AuthGetUser, ConsoleError, ShowAlert FailedToSubmitPicks,
                  SetSubmitting False], db)
            | AuthNoUser \<Rightarrow> ([SetSubmitting True, AuthGetUser, SetSubmitting False], db)
            | AuthUser u \<Rightarrow>
                if upsert_error e then
                  ([SetSubmitting True, AuthGetUser, UpsertPicks (upsert_payload (tempPicks r)),
                    ConsoleError, ShowAlert FailedToSubmitPicks, SetSubmitting False], db)
                else
                  (let db' = upsert (db_now e) (upsert_payload (tempPicks r)) db
                   in ([SetSubmitting True, AuthGetUser, UpsertPicks (upsert_payload (tempPicks r)),
                        SetTempPicks []]
                       @ loadSlateAndPicks e r db'
                       @ [ShowAlert (PicksSubmitted (length (tempPicks r)) (lg_name lg)),
                          SetSubmitting False], db'))))"

text \<open>
  The two places that call \<open>submitAllPicks\<close>. The Submit button belongs to the render of
  the live state (line 386). The button \<open>Submit Picks\<close> of the alert
  \<open>All Picks Selected!\<close> is created inside \<open>handlePickSide\<close> (line 225): its
  \<open>submitAllPicks\<close> is the one of the render that ran \<open>handlePickSide\<close>, whose
  \<open>tempPicks\<close> are those from before the selection.
\<close>

definition pressSubmitButton :: "env \<Rightarrow> slate_screen \<times> pick list \<Rightarrow> slate_screen \<times> pick list" where
  "pressSubmitButton e w =
     (let (s, db) = w; (effs, db') = submitAllPicks e s db in (commit effs s, db'))"

definition pressSubmitInPrompt ::
    "env \<Rightarrow> slate_screen \<Rightarrow> slate_screen \<times> pick list \<Rightarrow> slate_screen \<times> pick list" where
  "pressSubmitInPrompt e r w =
     (let (s, db) = w; (effs, db') = submitAllPicks e r db in (commit effs s, db'))"

section \<open>The member-picks screen\<close>

record member_screen =
  userId :: string
  m_leagueId :: string
  userName :: string
  m_loading :: bool
  m_refreshing :: bool
  currentUserId :: "string option"

text \<open>
  The rows \<open>fetchMemberPicks\<close> asks for (\<open>.eq('league_id', leagueId).eq('user_id', userId)\<close>);
  their order is not modelled.
\<close>

definition fetchMemberPicks :: "member_screen \<Rightarrow> pick list \<Rightarrow> pick list" where
  "fetchMemberPicks scr db =
     filter (\<lambda>p. league_id p = m_leagueId scr \<and> user_id p = userId scr) db"

text \<open>
  \<open>isPickVisible\<close> has the one parameter \<open>pick\<close>. It reads \<open>currentUserId\<close> and \<open>userId\<close>
  from the component and the clock through \<open>new Date()\<close>; \<open>wall_clock\<close> is that reading.
  An Invalid Date compares false with everything.
\<close>

definition isPickVisible :: "member_screen \<Rightarrow> date \<Rightarrow> pick \<Rightarrow> bool" where
  "isPickVisible scr wall_clock pick =
     (if currentUserId scr = Some (userId scr) then True
      else case unlock_at pick of
             None \<Rightarrow> True
           | Some EmptyString \<Rightarrow> True
           | Some (IsoTime unlockTime) \<Rightarrow> wall_clock \<ge> unlockTime
           | Some NotADate \<Rightarrow> False)"

text \<open>A table row carries what a written row says, under the written row's key.\<close>

definition holds_written :: "pick_write \<Rightarrow> pick \<Rightarrow> bool" where
  "holds_written w row \<longleftrightarrow>
     pick_key row = pick_key w \<and> side row = side w \<and> line_value row = line_value w
       \<and> unlock_at row = unlock_at w \<and> locked row = locked w"

section \<open>Concrete data for the examples\<close>

text \<open>
  A league with a pick limit of 3, a signed-in user and the clock at Tuesday
  2 September 2025, 08:00 UTC, in a zone that is five hours behind UTC throughout.
  \<open>ex_new_york\<close> is the zone of New York in 2025: four hours behind UTC from 9 March,
  07:00 UTC, to 2 November, 06:00 UTC, and five hours otherwise; local times from 02:00 to
  03:00 on 9 March are skipped, those from 01:00 to 02:00 on 2 November repeated. In
  \<open>ex_env_ny\<close> the clock reads 2 November 2025, 04:30 UTC, half an hour after local
  midnight of the Sunday on which the offset changes. In \<open>ex_env_reload_fails\<close> the select
  on the slate reports an error.
\<close>

definition fixed_zone :: "int \<Rightarrow> zone" where
  "fixed_zone off = \<lparr>tza_utc = (\<lambda>t. off), tza_local = (\<lambda>l. off)\<rparr>"


definition ex_league :: league where
  "ex_league = \<lparr>lg_id = ''L1'', lg_name = ''Friends'', invite_code = ''ABC'', created_by = ''u1'',
                pick_limit = Some 3, push_points = 1 / 2, lg_created_at = ''2025-08-01'',
                role = player\<rparr>"

definition ex_env :: env where
  "ex_env = \<lparr>auth = AuthUser ''u1'', now = 1756800000000, now_created = 1756800000001,
             now_updated = 1756800000001, tz = fixed_zone (- 18000000), upsert_error = False,
             slate_response = Some [], picks_error = False, db_now = IsoTime 1756800000500\<rparr>"



definition ex_screen :: slate_screen where
  "ex_screen = \<lparr>leagueId = ''L1'', league = Some ex_league, gamesWithLines = [], picks = [],
                tempPicks = [], loading = False, refreshing = False, submitting = False,
                currentWeek = 1\<rparr>"

definition ex_pick :: "string \<Rightarrow> side \<Rightarrow> real \<Rightarrow> pick" where
  "ex_pick g sd v = newTempPick ex_env ex_screen ex_league ''u1'' g sd v"

definition ex_full :: slate_screen where
  "ex_full = ex_screen\<lparr>tempPicks := [ex_pick ''A'' HOME 1, ex_pick ''B'' AWAY 2, ex_pick ''C'' HOME 3]\<rparr>"

definition ex_submitted :: slate_screen where
  "ex_submitted = ex_screen\<lparr>picks := [ex_pick ''A'' HOME 1]\<rparr>"

definition ex_league0 :: league where
  "ex_league0 = ex_league\<lparr>pick_limit := Some 0\<rparr>"

definition ex_screen0 :: slate_screen where
  "ex_screen0 = ex_screen\<lparr>league := Some ex_league0\<rparr>"

definition ex_two :: slate_screen where
  "ex_two = ex_screen\<lparr>tempPicks := [ex_pick ''A'' HOME 1, ex_pick ''B'' AWAY 2]\<rparr>"

definition ex_db :: "pick list" where
  "ex_db = [(ex_pick ''A'' AWAY 9)\<lparr>locked := True\<rparr>]"

text \<open>
  The member-picks screen of user u1, looked at by user u2 and by u1, and stored picks of
  u1 that unlock on Saturday 6 September 2025 at 22:00 UTC, or carry no unlock time.
\<close>

definition ex_viewer :: member_screen where
  "ex_viewer = \<lparr>userId = ''u1'', m_leagueId = ''L1'', userName = ''Ann'', m_loading = False,
                m_refreshing = False, currentUserId = Some ''u2''\<rparr>"

definition ex_owner :: member_screen where
  "ex_owner = ex_viewer\<lparr>currentUserId := Some ''u1''\<rparr>"

definition ex_stored :: pick where
  "ex_stored = (ex_pick ''A'' HOME 1)\<lparr>unlock_at := Some (IsoTime 1757196000000)\<rparr>"

definition ex_open :: pick where
  "ex_open = (ex_pick ''B'' AWAY 2)\<lparr>unlock_at := None\<rparr>"

definition ex_other_screen :: member_screen where
  "ex_other_screen = \<lparr>userId = ''u3'', m_leagueId = ''L2'', userName = ''Cy'', m_loading = True,
                      m_refreshing = False, currentUserId = None\<rparr>"

definition ex_other_pick :: pick where
  "ex_other_pick = (ex_pick ''Z'' AWAY 4)\<lparr>unlock_at := Some (IsoTime 1757196000000),
                                          locked := True\<rparr>"

section \<open>Properties of handlePickSide\<close>


lemma handlePickSide_limit:
  "league r = Some lg \<Longrightarrow> auth e = AuthUser u \<Longrightarrow> find (\<lambda>p. game_id p = g) (picks r) = None
   \<Longrightarrow> find (\<lambda>p. game_id p = g) (tempPicks r) = None
   \<Longrightarrow> pickLimit_of lg \<le> int (length (tempPicks r))
   \<Longrightarrow> handlePickSide e r g sd v = [AuthGetUser, ShowAlert (PickLimitReached (pickLimit_of lg))]"
  by (simp add: handlePickSide_def Let_def)

lemma selectSide_tempPicks_cases:
  "tempPicks (selectSide e g sd v s) = tempPicks s
   \<or> (\<exists>lg u. league s = Some lg \<and> auth e = AuthUser u
         \<and> find (\<lambda>p. game_id p = g) (picks s) = None
         \<and> ((find (\<lambda>p. game_id p = g) (tempPicks s) \<noteq> None
              \<and> tempPicks (selectSide e g sd v s)
                  = map (\<lambda>p. if game_id p = g then newTempPick e s lg u g sd v else p) (tempPicks s))
           \<or> (find (\<lambda>p. game_id p = g) (tempPicks s) = None
              \<and> int (length (tempPicks s)) < pickLimit_of lg
              \<and> tempPicks (selectSide e g sd v s) = tempPicks s @ [newTempPick e s lg u g sd v])))"
  by (cases "league s"; cases "auth e")
     (auto simp: selectSide_def handlePickSide_def Let_def commit_def)

lemma selectSide_league: "league (selectSide e g sd v s) = league s"
  by (cases "league s"; cases "auth e")
     (auto simp: selectSide_def handlePickSide_def Let_def commit_def)

lemma selectSide_picks: "picks (selectSide e g sd v s) = picks s"
  by (cases "league s"; cases "auth e")
     (auto simp: selectSide_def handlePickSide_def Let_def commit_def)

lemma selectSide_limit: "pickLimit_render (selectSide e g sd v s) = pickLimit_render s"
  by (simp add: pickLimit_render_def selectSide_league)

lemma selectSide_within_limit:
  assumes "int (length (tempPicks s)) \<le> pickLimit_render s"
  shows "int (length (tempPicks (selectSide e g sd v s))) \<le> pickLimit_render s"
  using selectSide_tempPicks_cases [of e g sd v s] assms
  by (auto simp: pickLimit_render_def)

lemma selectSides_within_limit:
  "int (length (tempPicks s)) \<le> pickLimit_render s
   \<Longrightarrow> int (length (tempPicks (selectSides calls s))) \<le> pickLimit_render s"
proof (induction calls arbitrary: s)
  case Nil
  then show ?case by simp
next
  case (Cons c calls)
  obtain e g sd v where c: "c = (e, g, sd, v)" by (cases c) auto
  have "int (length (tempPicks (selectSide e g sd v s))) \<le> pickLimit_render (selectSide e g sd v s)"
    using Cons.prems by (simp add: selectSide_within_limit selectSide_limit)
  from Cons.IH [OF this] show ?case by (simp add: c selectSide_limit)
qed


text \<open>
  Claim C1. The pick limit of a session is \<open>pickLimit_render\<close>, which no selection
  changes. A session that holds no more temporary picks than its limit (as the empty
  session of a league with a limit that is not negative does) still holds no more than
  the limit after every sequence of selections. With the league loaded, the user signed
  in and no submitted pick for the game, a selection for a game without a temporary pick
  is answered by the alert \<open>Pick Limit Reached\<close> and changes nothing when the session
  already holds as many temporary picks as the limit. A selection for a game that has a
  temporary pick leaves the number of temporary picks as it is.
\<close>

theorem limit_invariant:
  assumes "int (length (tempPicks s)) \<le> pickLimit_render s"
  shows "int (length (tempPicks (selectSides calls s))) \<le> pickLimit_render s
    \<and> (league s = Some lg \<and> auth e = AuthUser u
         \<and> find (\<lambda>p. game_id p = g) (picks s) = None
         \<and> find (\<lambda>p. game_id p = g) (tempPicks s) = None
         \<and> pickLimit_of lg \<le> int (length (tempPicks s))
       \<longrightarrow> handlePickSide e s g sd v = [AuthGetUser, ShowAlert (PickLimitReached (pickLimit_of lg))]
           \<and> selectSide e g sd v s = s)
    \<and> (find (\<lambda>p. game_id p = g') (tempPicks s) \<noteq> None
       \<longrightarrow> length (tempPicks (selectSide e' g' sd' v' s)) = length (tempPicks s))"
proof (intro conjI impI)
  show "int (length (tempPicks (selectSides calls s))) \<le> pickLimit_render s"
    using assms by (rule selectSides_within_limit)
next
  assume h: "league s = Some lg \<and> auth e = AuthUser u
         \<and> find (\<lambda>p. game_id p = g) (picks s) = None
         \<and> find (\<lambda>p. game_id p = g) (tempPicks s) = None
         \<and> pickLimit_of lg \<le> int (length (tempPicks s))"
  then show "handlePickSide e s g sd v = [AuthGetUser, ShowAlert (PickLimitReached (pickLimit_of lg))]"
    by (simp add: handlePickSide_limit)
  then show "selectSide e g sd v s = s"
    by (simp add: selectSide_def commit_def)
next
  assume "find (\<lambda>p. game_id p = g') (tempPicks s) \<noteq> None"
  then show "length (tempPicks (selectSide e' g' sd' v' s)) = length (tempPicks s)"
    using selectSide_tempPicks_cases [of e' g' sd' v' s] by auto
qed

lemmas ex_defs = ex_league_def ex_env_def ex_screen_def ex_pick_def ex_full_def ex_submitted_def
  newTempPick_def

theorem limit_invariant_witness:
  "int (length (tempPicks ex_full)) \<le> pickLimit_render ex_full
   \<and> int (length (tempPicks (selectSides [(ex_env, ''D'', HOME, 7), (ex_env, ''A'', AWAY, 2)] ex_full))) \<le> 3
   \<and> handlePickSide ex_env ex_full ''D'' HOME 7 = [AuthGetUser, ShowAlert (PickLimitReached 3)]
   \<and> selectSide ex_env ''D'' HOME 7 ex_full = ex_full
   \<and> length (tempPicks (selectSide ex_env ''A'' AWAY 2 ex_full)) = 3"
proof -
  have h: "int (length (tempPicks ex_full)) \<le> pickLimit_render ex_full"
    by (simp add: ex_defs pickLimit_render_def pickLimit_of_def)
  have a: "league ex_full = Some ex_league \<and> auth ex_env = AuthUser ''u1''
         \<and> find (\<lambda>p. game_id p = ''D'') (picks ex_full) = None
         \<and> find (\<lambda>p. game_id p = ''D'') (tempPicks ex_full) = None
         \<and> pickLimit_of ex_league \<le> int (length (tempPicks ex_full))"
    by (simp add: ex_defs pickLimit_of_def)
  have b: "find (\<lambda>p. game_id p = ''A'') (tempPicks ex_full) \<noteq> None"
    by (simp add: ex_defs)
  have l: "pickLimit_render ex_full = 3" "pickLimit_of ex_league = 3" "length (tempPicks ex_full) = 3"
    by (simp_all add: ex_defs pickLimit_render_def pickLimit_of_def)
  from limit_invariant [OF h, of "[(ex_env, ''D'', HOME, 7), (ex_env, ''A'', AWAY, 2)]"
      ex_league ex_env "''u1''" "''D''" HOME 7 "''A''" ex_env AWAY 2] a b l h
  show ?thesis by simp
qed

lemma find_game_None: "find (\<lambda>p. game_id p = g) ps = None \<longleftrightarrow> g \<notin> game_id ` set ps"
  by (auto simp: find_None_iff)


lemma game_id_newTempPick: "game_id (newTempPick e r lg u g sd v) = g"
  by (simp add: newTempPick_def)

lemma filter_replace_game:
  assumes "game_id new = g" "distinct (map game_id ps)" "g \<in> game_id ` set ps"
  shows "filter (\<lambda>p. game_id p = g) (map (\<lambda>p. if game_id p = g then new else p) ps) = [new]"
  using assms
proof (induction ps)
  case Nil
  then show ?case by simp
next
  case (Cons p ps)
  show ?case
  proof (cases "game_id p = g")
    case True
    with Cons.prems have "\<forall>q \<in> set ps. game_id q \<noteq> g" by (auto simp: image_iff)
    then have "filter (\<lambda>p. game_id p = g) (map (\<lambda>p. if game_id p = g then new else p) ps) = []"
      by (simp add: filter_empty_conv)
    with True Cons.prems show ?thesis by simp
  next
    case False
    with Cons show ?thesis by auto
  qed
qed

lemma map_game_id_replace:
  "game_id new = g \<Longrightarrow> map game_id (map (\<lambda>p. if game_id p = g then new else p) ps) = map game_id ps"
  by (induction ps) auto

lemma selectSide_distinct:
  assumes "distinct (map game_id (tempPicks s))"
  shows "distinct (map game_id (tempPicks (selectSide e g sd v s)))"
  using selectSide_tempPicks_cases [of e g sd v s] assms
  by (auto simp: map_game_id_replace game_id_newTempPick find_game_None simp del: map_map)

lemma selectSide_accepted:
  assumes "league s = Some lg" "auth e = AuthUser u"
    "find (\<lambda>p. game_id p = g) (picks s) = None"
    "find (\<lambda>p. game_id p = g) (tempPicks s) \<noteq> None \<or> int (length (tempPicks s)) < pickLimit_of lg"
  shows "tempPicks (selectSide e g sd v s) =
      (if find (\<lambda>p. game_id p = g) (tempPicks s) \<noteq> None
       then map (\<lambda>p. if game_id p = g then newTempPick e s lg u g sd v else p) (tempPicks s)
       else tempPicks s @ [newTempPick e s lg u g sd v])"
  using assms by (auto simp: selectSide_def handlePickSide_def Let_def commit_def)

lemma selectSide_accepted_has_game:
  assumes "league s = Some lg" "auth e = AuthUser u"
    "find (\<lambda>p. game_id p = g) (picks s) = None"
    "find (\<lambda>p. game_id p = g) (tempPicks s) \<noteq> None \<or> int (length (tempPicks s)) < pickLimit_of lg"
  shows "g \<in> game_id ` set (tempPicks (selectSide e g sd v s))"
proof (cases "find (\<lambda>p. game_id p = g) (tempPicks s) = None")
  case True
  with selectSide_accepted [OF assms, of sd v] show ?thesis
    by (simp add: game_id_newTempPick)
next
  case False
  let ?new = "newTempPick e s lg u g sd v"
  let ?f = "\<lambda>q. if game_id q = g then ?new else q"
  from False obtain p where p: "p \<in> set (tempPicks s)" "game_id p = g"
    by (auto simp: find_None_iff)
  from p(1) have "?f p \<in> ?f ` set (tempPicks s)" by (rule imageI)
  with p(2) have "?new \<in> set (map ?f (tempPicks s))" by simp
  then have "game_id ?new \<in> game_id ` set (map ?f (tempPicks s))" by (rule imageI)
  then have "g \<in> game_id ` set (map ?f (tempPicks s))"
    by (simp only: game_id_newTempPick)
  moreover have "tempPicks (selectSide e g sd v s) = map ?f (tempPicks s)"
    using False selectSide_accepted [OF assms, of sd v] by simp
  ultimately show ?thesis by simp
qed

lemma selectSide_accepted_filter:
  assumes "league s = Some lg" "auth e = AuthUser u"
    "find (\<lambda>p. game_id p = g) (picks s) = None"
    "find (\<lambda>p. game_id p = g) (tempPicks s) \<noteq> None \<or> int (length (tempPicks s)) < pickLimit_of lg"
    "distinct (map game_id (tempPicks s))"
  shows "filter (\<lambda>p. game_id p = g) (tempPicks (selectSide e g sd v s))
     = [newTempPick e s lg u g sd v]"
proof (cases "find (\<lambda>p. game_id p = g) (tempPicks s) = None")
  case True
  then have "\<forall>q \<in> set (tempPicks s). game_id q \<noteq> g"
    by (simp add: find_None_iff)
  then have "filter (\<lambda>p. game_id p = g) (tempPicks s) = []"
    by (simp add: filter_empty_conv)
  with True selectSide_accepted [OF assms(1-4), of sd v] show ?thesis
    by (simp add: game_id_newTempPick)
next
  case False
  then have "g \<in> game_id ` set (tempPicks s)"
    by (simp add: find_game_None)
  with assms(5) have "filter (\<lambda>p. game_id p = g)
      (map (\<lambda>p. if game_id p = g then newTempPick e s lg u g sd v else p) (tempPicks s))
      = [newTempPick e s lg u g sd v]"
    by (intro filter_replace_game) (simp_all add: game_id_newTempPick)
  with False selectSide_accepted [OF assms(1-4), of sd v] show ?thesis
    by simp
qed

text \<open>
  Claim C5. On a session with the league loaded, users signed in, no submitted pick for
  game \<open>g\<close>, at most one temporary pick per game, and room for the first selection (a
  temporary pick for \<open>g\<close> exists or the limit is not reached): after selecting side \<open>sd1\<close>
  at \<open>v1\<close> and then side \<open>sd2\<close> at \<open>v2\<close> for \<open>g\<close> (HOME at -3 and then AWAY at 3 among them),
  the temporary picks for \<open>g\<close> are exactly one, with the side and line value of the second
  call, where after the first call they were exactly one with those of the first; the
  second selection did not change the number of temporary picks. A selection for a game
  \<open>h\<close> with no temporary pick, below the limit, appends one pick at the end, for game \<open>h\<close>
  with the side and line value of the call.
\<close>

theorem upsert_by_game:
  assumes "league s = Some lg" "auth e1 = AuthUser u1" "auth e2 = AuthUser u2"
    "find (\<lambda>p. game_id p = g) (picks s) = None"
    "distinct (map game_id (tempPicks s))"
    "find (\<lambda>p. game_id p = g) (tempPicks s) \<noteq> None \<or> int (length (tempPicks s)) < pickLimit_of lg"
  shows "map (\<lambda>p. (game_id p, side p, line_value p))
           (filter (\<lambda>p. game_id p = g)
              (tempPicks (selectSide e2 g sd2 v2 (selectSide e1 g sd1 v1 s)))) = [(g, sd2, v2)]
    \<and> map (\<lambda>p. (game_id p, side p, line_value p))
           (filter (\<lambda>p. game_id p = g) (tempPicks (selectSide e1 g sd1 v1 s))) = [(g, sd1, v1)]
    \<and> length (tempPicks (selectSide e2 g sd2 v2 (selectSide e1 g sd1 v1 s)))
        = length (tempPicks (selectSide e1 g sd1 v1 s))
    \<and> (find (\<lambda>p. game_id p = h) (tempPicks s) = None \<and> find (\<lambda>p. game_id p = h) (picks s) = None
         \<and> int (length (tempPicks s)) < pickLimit_of lg
       \<longrightarrow> tempPicks (selectSide e1 h sd v s) = tempPicks s @ [newTempPick e1 s lg u1 h sd v]
           \<and> game_id (newTempPick e1 s lg u1 h sd v) = h
           \<and> side (newTempPick e1 s lg u1 h sd v) = sd
           \<and> line_value (newTempPick e1 s lg u1 h sd v) = v)"
proof -
  let ?s1 = "selectSide e1 g sd1 v1 s"
  have in1: "g \<in> game_id ` set (tempPicks ?s1)"
    using assms(1,2,4,6) by (rule selectSide_accepted_has_game)
  then have f1: "find (\<lambda>p. game_id p = g) (tempPicks ?s1) \<noteq> None"
    by (simp add: find_game_None)
  then have room: "find (\<lambda>p. game_id p = g) (tempPicks ?s1) \<noteq> None
      \<or> int (length (tempPicks ?s1)) < pickLimit_of lg" ..
  have d1: "distinct (map game_id (tempPicks ?s1))"
    using assms(5) by (rule selectSide_distinct)
  have l1: "league ?s1 = Some lg" "find (\<lambda>p. game_id p = g) (picks ?s1) = None"
    using assms(1,4) by (simp_all add: selectSide_league selectSide_picks)
  have "filter (\<lambda>p. game_id p = g) (tempPicks ?s1) = [newTempPick e1 s lg u1 g sd1 v1]"
    using assms(1,2,4,6,5) by (rule selectSide_accepted_filter)
  then have first: "map (\<lambda>p. (game_id p, side p, line_value p))
           (filter (\<lambda>p. game_id p = g) (tempPicks ?s1)) = [(g, sd1, v1)]"
    by (simp add: newTempPick_def)
  have "filter (\<lambda>p. game_id p = g) (tempPicks (selectSide e2 g sd2 v2 ?s1))
      = [newTempPick e2 ?s1 lg u2 g sd2 v2]"
    using l1(1) assms(3) l1(2) room d1 by (rule selectSide_accepted_filter)
  then have second: "map (\<lambda>p. (game_id p, side p, line_value p))
           (filter (\<lambda>p. game_id p = g) (tempPicks (selectSide e2 g sd2 v2 ?s1))) = [(g, sd2, v2)]"
    by (simp add: newTempPick_def)
  have len: "length (tempPicks (selectSide e2 g sd2 v2 ?s1)) = length (tempPicks ?s1)"
    using selectSide_accepted [OF l1(1) assms(3) l1(2) room, of sd2 v2] f1 by simp
  have app: "find (\<lambda>p. game_id p = h) (tempPicks s) = None \<and> find (\<lambda>p. game_id p = h) (picks s) = None
         \<and> int (length (tempPicks s)) < pickLimit_of lg
       \<longrightarrow> tempPicks (selectSide e1 h sd v s) = tempPicks s @ [newTempPick e1 s lg u1 h sd v]"
    using selectSide_accepted [of s lg e1 u1 h sd v] assms(1,2) by simp
  have fields: "game_id (newTempPick e1 s lg u1 h sd v) = h"
    "side (newTempPick e1 s lg u1 h sd v) = sd"
    "line_value (newTempPick e1 s lg u1 h sd v) = v"
    by (simp_all add: newTempPick_def)
  from first second len app fields show ?thesis by simp
qed

theorem upsert_by_game_witness:
  "league ex_screen = Some ex_league \<and> auth ex_env = AuthUser ''u1''
   \<and> find (\<lambda>p. game_id p = ''A'') (picks ex_screen) = None
   \<and> distinct (map game_id (tempPicks ex_screen))
   \<and> int (length (tempPicks ex_screen)) < pickLimit_of ex_league
   \<and> map (\<lambda>p. (game_id p, side p, line_value p))
        (filter (\<lambda>p. game_id p = ''A'')
           (tempPicks (selectSide ex_env ''A'' AWAY 3 (selectSide ex_env ''A'' HOME (- 3) ex_screen))))
       = [(''A'', AWAY, 3)]
   \<and> map (\<lambda>p. (game_id p, side p, line_value p))
        (filter (\<lambda>p. game_id p = ''A'') (tempPicks (selectSide ex_env ''A'' HOME (- 3) ex_screen)))
       = [(''A'', HOME, - 3)]
   \<and> find (\<lambda>p. game_id p = ''B'') (tempPicks ex_screen) = None
   \<and> find (\<lambda>p. game_id p = ''B'') (picks ex_screen) = None
   \<and> map (\<lambda>p. (game_id p, side p, line_value p)) (tempPicks (selectSide ex_env ''B'' HOME 7 ex_screen))
       = [(''B'', HOME, 7)]"
proof -
  have a: "league ex_screen = Some ex_league" "auth ex_env = AuthUser ''u1''"
    "find (\<lambda>p. game_id p = ''A'') (picks ex_screen) = None"
    "distinct (map game_id (tempPicks ex_screen))"
    by (simp_all add: ex_defs)
  have b: "int (length (tempPicks ex_screen)) < pickLimit_of ex_league"
    by (simp add: ex_defs pickLimit_of_def)
  then have c: "find (\<lambda>p. game_id p = ''A'') (tempPicks ex_screen) \<noteq> None
      \<or> int (length (tempPicks ex_screen)) < pickLimit_of ex_league" ..
  have d: "find (\<lambda>p. game_id p = ''B'') (tempPicks ex_screen) = None"
    "find (\<lambda>p. game_id p = ''B'') (picks ex_screen) = None"
    "tempPicks ex_screen = []"
    by (simp_all add: ex_defs)
  note th = upsert_by_game [OF a(1) a(2) a(2) a(3) a(4) c,
      where ?sd1.0 = HOME and ?v1.0 = "- 3" and ?sd2.0 = AWAY and ?v2.0 = 3
        and h = "''B''" and sd = HOME and v = 7]
  from th b d have f: "map (\<lambda>p. (game_id p, side p, line_value p))
      (tempPicks (selectSide ex_env ''B'' HOME 7 ex_screen)) = [(''B'', HOME, 7)]"
    by simp
  from th a b d f show ?thesis by simp
qed

section \<open>The unlock time\<close>














section \<open>The default limit and the empty submission\<close>

text \<open>
  Claim C10. When the league's \<open>pick_limit\<close> is absent or 0, the limit that
  \<open>handlePickSide\<close> and the render use is 5: the session can be submitted exactly when it
  holds 5 temporary picks, and a selection for a game with no pick yet is accepted while
  fewer than 5 temporary picks are held and answered by \<open>Pick Limit Reached\<close> with limit 5
  otherwise.
\<close>

theorem falsy_limit_defaults_to_5:
  assumes "pick_limit lg = None \<or> pick_limit lg = Some 0"
  shows "pickLimit_of lg = 5
    \<and> (league r = Some lg \<longrightarrow> pickLimit_render r = 5 \<and> canSubmit r = (length (tempPicks r) = 5))
    \<and> (league r = Some lg \<and> auth e = AuthUser u
         \<and> find (\<lambda>p. game_id p = g) (picks r) = None
         \<and> find (\<lambda>p. game_id p = g) (tempPicks r) = None
       \<longrightarrow> (if length (tempPicks r) < 5
            then tempPicks (selectSide e g sd v r) = tempPicks r @ [newTempPick e r lg u g sd v]
            else handlePickSide e r g sd v = [AuthGetUser, ShowAlert (PickLimitReached 5)]))"
proof -
  from assms have l: "pickLimit_of lg = 5"
    by (auto simp: pickLimit_of_def)
  then have "league r = Some lg \<longrightarrow> pickLimit_render r = 5 \<and> canSubmit r = (length (tempPicks r) = 5)"
    by (auto simp: canSubmit_def pickLimit_render_def)
  moreover have "league r = Some lg \<and> auth e = AuthUser u
         \<and> find (\<lambda>p. game_id p = g) (picks r) = None
         \<and> find (\<lambda>p. game_id p = g) (tempPicks r) = None
       \<longrightarrow> (if length (tempPicks r) < 5
            then tempPicks (selectSide e g sd v r) = tempPicks r @ [newTempPick e r lg u g sd v]
            else handlePickSide e r g sd v = [AuthGetUser, ShowAlert (PickLimitReached 5)])"
    using l by (auto simp: selectSide_def handlePickSide_def Let_def commit_def)
  ultimately show ?thesis using l by simp
qed

theorem falsy_limit_defaults_to_5_witness:
  "pick_limit ex_league0 = Some 0
   \<and> pickLimit_of ex_league0 = 5
   \<and> canSubmit ex_screen0 = False
   \<and> tempPicks (selectSide ex_env ''A'' HOME 1 ex_screen0)
       = [newTempPick ex_env ex_screen0 ex_league0 ''u1'' ''A'' HOME 1]"
proof -
  have h: "pick_limit ex_league0 = None \<or> pick_limit ex_league0 = Some 0"
    by (simp add: ex_league0_def)
  have a: "league ex_screen0 = Some ex_league0 \<and> auth ex_env = AuthUser ''u1''
         \<and> find (\<lambda>p. game_id p = ''A'') (picks ex_screen0) = None
         \<and> find (\<lambda>p. game_id p = ''A'') (tempPicks ex_screen0) = None"
    by (simp add: ex_screen0_def ex_screen_def ex_env_def)
  have b: "tempPicks ex_screen0 = []" "pick_limit ex_league0 = Some 0"
    by (simp_all add: ex_screen0_def ex_screen_def ex_league0_def)
  from falsy_limit_defaults_to_5 [OF h, of ex_screen0 ex_env "''u1''" "''A''" HOME 1] a b
  show ?thesis by simp
qed

lemma submitAllPicks_empty:
  "tempPicks r = [] \<Longrightarrow> submitAllPicks e r db = ([], db)"
  by (simp add: submitAllPicks_def split: option.splits)

text \<open>
  Claim C8. When the render has no temporary picks, \<open>submitAllPicks\<close> returns at once:
  it issues no effect, so no network call and no state setter, and leaves the table as it
  is; pressing the Submit button leaves screen and table unchanged.
\<close>

theorem submit_empty_session:
  assumes "tempPicks r = []"
  shows "submitAllPicks e r db = ([], db)
    \<and> filter is_network_call (fst (submitAllPicks e r db)) = []
    \<and> commit (fst (submitAllPicks e r db)) live = live
    \<and> pressSubmitButton e (r, db) = (r, db)"
  using submitAllPicks_empty [OF assms, of e db]
  by (simp add: commit_def pressSubmitButton_def)

theorem submit_empty_session_witness:
  "tempPicks ex_screen = []
   \<and> submitAllPicks ex_env ex_screen [ex_pick ''A'' HOME 1] = ([], [ex_pick ''A'' HOME 1])
   \<and> pressSubmitButton ex_env (ex_screen, [ex_pick ''A'' HOME 1]) = (ex_screen, [ex_pick ''A'' HOME 1])"
proof -
  have h: "tempPicks ex_screen = []"
    by (simp add: ex_screen_def)
  from submit_empty_session [OF h, of ex_env "[ex_pick ''A'' HOME 1]"] h
  show ?thesis by simp
qed

section \<open>Submission and the upsert\<close>

lemma pick_key_overwrite:
  "pick_key (row\<lparr>side := a, line_value := b, unlock_at := c, locked := d\<rparr>) = pick_key row"
  by (simp add: pick_key_def)

lemma upsert_row_keys:
  "map pick_key (upsert_row st w db)
     = (if pick_key w \<in> set (map pick_key db) then map pick_key db
        else map pick_key db @ [pick_key w])"
proof (cases "pick_key w \<in> set (map pick_key db)")
  case True
  then have "\<exists>row \<in> set db. pick_key row = pick_key w" by auto
  moreover have "map pick_key (map (\<lambda>row. if pick_key row = pick_key w
                       then row\<lparr>side := side w, line_value := line_value w,
                                unlock_at := unlock_at w, locked := locked w\<rparr>
                       else row) db) = map pick_key db"
    by (induction db) (simp_all add: pick_key_overwrite)
  ultimately show ?thesis using True by (simp add: upsert_row_def)
next
  case False
  then have "\<not> (\<exists>row \<in> set db. pick_key row = pick_key w)" by force
  then show ?thesis using False by (simp add: upsert_row_def pick_key_def)
qed

lemma upsert_row_distinct:
  "distinct (map pick_key db) \<Longrightarrow> distinct (map pick_key (upsert_row st w db))"
  by (simp add: upsert_row_keys)

lemma upsert_distinct:
  "distinct (map pick_key db) \<Longrightarrow> distinct (map pick_key (upsert st ws db))"
  unfolding upsert_def
  by (induction ws arbitrary: db) (simp_all add: upsert_row_distinct)

lemma upsert_keys:
  "set (map pick_key (upsert st ws db)) = set (map pick_key db) \<union> set (map pick_key ws)"
  unfolding upsert_def
proof (induction ws arbitrary: db)
  case Nil
  then show ?case by simp
next
  case (Cons w ws)
  have "set (map pick_key (upsert_row st w db)) = insert (pick_key w) (set (map pick_key db))"
    by (auto simp: upsert_row_keys)
  with Cons.IH [of "upsert_row st w db"] show ?case by auto
qed

lemma upsert_length:
  "set (map pick_key ws) \<subseteq> set (map pick_key db) \<Longrightarrow> length (upsert st ws db) = length db"
  unfolding upsert_def
proof (induction ws arbitrary: db)
  case Nil
  then show ?case by simp
next
  case (Cons w ws)
  from Cons.prems have in_db: "pick_key w \<in> set (map pick_key db)" by simp
  then have k: "map pick_key (upsert_row st w db) = map pick_key db"
    by (simp add: upsert_row_keys)
  then have "length (upsert_row st w db) = length db"
    by (metis length_map)
  moreover have "length (fold (upsert_row st) ws (upsert_row st w db)) = length (upsert_row st w db)"
    using Cons.prems by (intro Cons.IH) (simp add: k)
  ultimately show ?case by simp
qed

lemma upsert_row_writes: "\<exists>row \<in> set (upsert_row st w db). holds_written w row"
proof (cases "\<exists>row \<in> set db. pick_key row = pick_key w")
  case True
  then obtain row where row: "row \<in> set db" "pick_key row = pick_key w" by blast
  let ?f = "\<lambda>row. if pick_key row = pick_key w
                       then row\<lparr>side := side w, line_value := line_value w,
                                unlock_at := unlock_at w, locked := locked w\<rparr>
                       else row"
  from row(1) have "?f row \<in> ?f ` set db" by (rule imageI)
  then have "?f row \<in> set (upsert_row st w db)"
    using True by (simp add: upsert_row_def)
  moreover have "holds_written w (?f row)"
    using row(2) by (simp add: holds_written_def pick_key_def)
  ultimately show ?thesis by blast
next
  case False
  let ?new = "\<lparr>league_id = league_id w, user_id = user_id w, season = season w,
                   week = week w, game_id = game_id w, side = side w,
                   line_value = line_value w, unlock_at = unlock_at w, locked = locked w,
                   result = None, points = None, created_at = st, updated_at = st\<rparr>"
  from False have "upsert_row st w db = db @ [?new]"
    by (simp add: upsert_row_def)
  moreover have "holds_written w ?new"
    by (simp add: holds_written_def pick_key_def)
  ultimately show ?thesis by simp
qed

lemma upsert_row_keeps:
  assumes "pick_key w' \<noteq> pick_key w" "\<exists>row \<in> set db. holds_written w row"
  shows "\<exists>row \<in> set (upsert_row st w' db). holds_written w row"
proof -
  from assms(2) obtain row where row: "row \<in> set db" "holds_written w row" by blast
  let ?f = "\<lambda>row. if pick_key row = pick_key w'
                       then row\<lparr>side := side w', line_value := line_value w',
                                unlock_at := unlock_at w', locked := locked w'\<rparr>
                       else row"
  from row(2) assms(1) have same: "?f row = row"
    by (simp add: holds_written_def)
  show ?thesis
  proof (cases "\<exists>row \<in> set db. pick_key row = pick_key w'")
    case True
    from row(1) have "?f row \<in> ?f ` set db" by (rule imageI)
    with same have "row \<in> set (upsert_row st w' db)"
      using True by (simp add: upsert_row_def)
    with row(2) show ?thesis by blast
  next
    case False
    with row show ?thesis by (auto simp: upsert_row_def)
  qed
qed

lemma upsert_keeps:
  assumes "\<forall>w' \<in> set ws. pick_key w' \<noteq> pick_key w" "\<exists>row \<in> set db. holds_written w row"
  shows "\<exists>row \<in> set (upsert st ws db). holds_written w row"
  using assms unfolding upsert_def
proof (induction ws arbitrary: db)
  case Nil
  then show ?case by simp
next
  case (Cons a ws)
  from Cons.prems have "\<exists>row \<in> set (upsert_row st a db). holds_written w row"
    by (intro upsert_row_keeps) simp_all
  with Cons.prems(1) Cons.IH [of "upsert_row st a db"] show ?case by simp
qed

lemma upsert_writes:
  assumes "distinct (map pick_key ws)" "w \<in> set ws"
  shows "\<exists>row \<in> set (upsert st ws db). holds_written w row"
  using assms
proof (induction ws arbitrary: db)
  case Nil
  then show ?case by simp
next
  case (Cons a ws)
  show ?case
  proof (cases "w = a")
    case True
    from Cons.prems(1) have "\<forall>w' \<in> set ws. pick_key w' \<noteq> pick_key a"
      by (auto simp: image_iff)
    with upsert_row_writes [of st a db]
    have "\<exists>row \<in> set (upsert st ws (upsert_row st a db)). holds_written a row"
      by (intro upsert_keeps)
    with True show ?thesis by (simp add: upsert_def)
  next
    case False
    with Cons.prems have "w \<in> set ws" "distinct (map pick_key ws)" by simp_all
    from Cons.IH [OF this(2) this(1), of "upsert_row st a db"] show ?thesis
      by (simp add: upsert_def)
  qed
qed

lemma upsert_payload_unlocked: "\<forall>w \<in> set (upsert_payload ps). locked w = False"
  by (auto simp: upsert_payload_def)

lemma submitAllPicks_upsert:
  assumes "UpsertPicks ws \<in> set (fst (submitAllPicks e r db))"
  shows "ws = upsert_payload (tempPicks r)
    \<and> snd (submitAllPicks e r db) = (if upsert_error e then db else upsert (db_now e) ws db)"
  using assms
  by (cases "league r"; cases "auth e")
     (auto simp: submitAllPicks_def loadSlateAndPicks_def Let_def
           split: if_splits option.splits)


text \<open>
  Claim C6. The rows \<open>submitAllPicks\<close> sends to the upsert are the temporary picks of its
  render cut down to the nine written columns, every one with \<open>locked\<close> false, and when the
  upsert reports no error the table after the call is the upsert of these rows. The
  upsert is keyed on (league, user, season, week, game): a table without two rows under
  one key stays so, the keys afterwards are the old keys and the written keys, a request
  whose keys are all present leaves the number of rows as it is, and each row of a
  request with distinct keys is found in the table afterwards, under its key, with the
  written side, line value, unlock time and lock flag.
\<close>

theorem submit_writes_unlocked_upsert:
  "(UpsertPicks ws \<in> set (fst (submitAllPicks e r db))
      \<longrightarrow> ws = upsert_payload (tempPicks r) \<and> (\<forall>w \<in> set ws. locked w = False)
          \<and> (\<not> upsert_error e \<longrightarrow> snd (submitAllPicks e r db) = upsert (db_now e) ws db))
   \<and> (distinct (map pick_key tbl) \<longrightarrow> distinct (map pick_key (upsert st rows tbl)))
   \<and> set (map pick_key (upsert st rows tbl)) = set (map pick_key tbl) \<union> set (map pick_key rows)
   \<and> (set (map pick_key rows) \<subseteq> set (map pick_key tbl)
        \<longrightarrow> length (upsert st rows tbl) = length tbl)
   \<and> (distinct (map pick_key rows) \<and> x \<in> set rows
        \<longrightarrow> (\<exists>row \<in> set (upsert st rows tbl). holds_written x row))"
proof (intro conjI impI)
  assume a: "UpsertPicks ws \<in> set (fst (submitAllPicks e r db))"
  from submitAllPicks_upsert [OF a] show "ws = upsert_payload (tempPicks r)" by simp
  then show "\<forall>w \<in> set ws. locked w = False"
    by (simp add: upsert_payload_unlocked)
  assume "\<not> upsert_error e"
  with submitAllPicks_upsert [OF a]
  show "snd (submitAllPicks e r db) = upsert (db_now e) ws db" by simp
next
  assume "distinct (map pick_key tbl)"
  then show "distinct (map pick_key (upsert st rows tbl))" by (rule upsert_distinct)
next
  show "set (map pick_key (upsert st rows tbl)) = set (map pick_key tbl) \<union> set (map pick_key rows)"
    by (rule upsert_keys)
next
  assume "set (map pick_key rows) \<subseteq> set (map pick_key tbl)"
  then show "length (upsert st rows tbl) = length tbl" by (rule upsert_length)
next
  assume "distinct (map pick_key rows) \<and> x \<in> set rows"
  then show "\<exists>row \<in> set (upsert st rows tbl). holds_written x row"
    by (simp add: upsert_writes)
qed

lemmas eval_defs = submitAllPicks_def loadSlateAndPicks_def upsert_def upsert_row_def
  upsert_payload_def pick_key_def handlePickSide_def selectSide_def commit_def
  pickLimit_of_def Let_def List.map_filter_def currentSeason_def

theorem submit_writes_unlocked_upsert_witness:
  "UpsertPicks (upsert_payload (tempPicks ex_two)) \<in> set (fst (submitAllPicks ex_env ex_two ex_db))
   \<and> \<not> upsert_error ex_env
   \<and> distinct (map pick_key ex_db)
   \<and> set (map pick_key (upsert_payload [ex_pick ''A'' HOME 1])) \<subseteq> set (map pick_key ex_db)
   \<and> distinct (map pick_key (upsert_payload [ex_pick ''A'' HOME 1]))
   \<and> map (\<lambda>row. (game_id row, side row, line_value row, locked row)) ex_db
        = [(''A'', AWAY, 9, True)]
   \<and> map (\<lambda>row. (game_id row, side row, line_value row, locked row))
        (snd (submitAllPicks ex_env ex_two ex_db))
        = [(''A'', HOME, 1, False), (''B'', AWAY, 2, False)]
   \<and> length (upsert (db_now ex_env) (upsert_payload [ex_pick ''A'' HOME 1]) ex_db) = 1
   \<and> (\<exists>row \<in> set (upsert (db_now ex_env) (upsert_payload [ex_pick ''A'' HOME 1]) ex_db).
         holds_written (hd (upsert_payload [ex_pick ''A'' HOME 1])) row)"
proof -
  let ?rows = "upsert_payload [ex_pick ''A'' HOME 1]"
  have a: "UpsertPicks (upsert_payload (tempPicks ex_two))
      \<in> set (fst (submitAllPicks ex_env ex_two ex_db))"
    by (simp add: eval_defs ex_defs ex_two_def ex_db_def)
  have b: "\<not> upsert_error ex_env"
    by (simp add: ex_env_def)
  have c: "distinct (map pick_key ex_db)"
    by (simp add: ex_db_def)
  have d: "set (map pick_key ?rows) \<subseteq> set (map pick_key ex_db)"
    by (simp add: upsert_payload_def pick_key_def ex_defs ex_db_def)
  have e: "distinct (map pick_key ?rows) \<and> hd ?rows \<in> set ?rows"
    by (simp add: upsert_payload_def)
  have f: "map (\<lambda>row. (game_id row, side row, line_value row, locked row)) ex_db
        = [(''A'', AWAY, 9, True)]"
    by (simp add: ex_defs ex_db_def)
  have g: "map (\<lambda>row. (game_id row, side row, line_value row, locked row))
        (upsert (db_now ex_env) (upsert_payload (tempPicks ex_two)) ex_db)
        = [(''A'', HOME, 1, False), (''B'', AWAY, 2, False)]"
    by (simp add: eval_defs ex_defs ex_two_def ex_db_def)
  have l: "length ex_db = 1"
    by (simp add: ex_db_def)
  from submit_writes_unlocked_upsert [of "upsert_payload (tempPicks ex_two)" ex_env ex_two ex_db
      ex_db "db_now ex_env" ?rows "hd ?rows"] a b c d e f g l
  show ?thesis by simp
qed

lemma commit_loadSlateAndPicks_tempPicks:
  "tempPicks s = [] \<Longrightarrow> tempPicks (commit (loadSlateAndPicks e r db) s) = []"
  by (cases "auth e"; cases "slate_response e")
     (simp_all add: loadSlateAndPicks_def commit_def Let_def)

lemma pressSubmitButton_atomic:
  "(tempPicks (fst (pressSubmitButton e (s, db))) = tempPicks s
      \<and> snd (pressSubmitButton e (s, db)) = db)
   \<or> (tempPicks (fst (pressSubmitButton e (s, db))) = []
      \<and> snd (pressSubmitButton e (s, db)) = upsert (db_now e) (upsert_payload (tempPicks s)) db)"
proof (cases "league s = None \<or> tempPicks s = [] \<or> auth e \<noteq> AuthUser (case auth e of AuthUser u \<Rightarrow> u | _ \<Rightarrow> []) \<or> upsert_error e")
  case True
  then have "tempPicks (fst (pressSubmitButton e (s, db))) = tempPicks s
      \<and> snd (pressSubmitButton e (s, db)) = db"
    by (cases "league s"; cases "auth e")
       (auto simp: pressSubmitButton_def submitAllPicks_def commit_def)
  then show ?thesis ..
next
  case False
  then obtain lg u where h: "league s = Some lg" "tempPicks s \<noteq> []" "auth e = AuthUser u"
    "\<not> upsert_error e"
    by (cases "auth e") auto
  let ?db = "upsert (db_now e) (upsert_payload (tempPicks s)) db"
  let ?s1 = "commit [SetSubmitting True, AuthGetUser, UpsertPicks (upsert_payload (tempPicks s)),
                        SetTempPicks []] s"
  have s1: "tempPicks ?s1 = []" by (simp add: commit_def)
  from h have "pressSubmitButton e (s, db)
      = (commit [ShowAlert (PicksSubmitted (length (tempPicks s)) (lg_name lg)), SetSubmitting False]
           (commit (loadSlateAndPicks e s ?db) ?s1), ?db)"
    by (simp add: pressSubmitButton_def submitAllPicks_def Let_def commit_def)
  moreover have "tempPicks (commit (loadSlateAndPicks e s ?db) ?s1) = []"
    using s1 by (rule commit_loadSlateAndPicks_tempPicks)
  ultimately have "tempPicks (fst (pressSubmitButton e (s, db))) = []
      \<and> snd (pressSubmitButton e (s, db)) = ?db"
    by (simp add: commit_def)
  then show ?thesis ..
qed

lemma pick_key_upsert_payload: "map pick_key (upsert_payload ps) = map pick_key ps"
  by (simp add: upsert_payload_def pick_key_def)

lemma pressSubmitButton_stores_all:
  assumes "distinct (map pick_key (tempPicks s))" "p \<in> set (tempPicks s)"
    "tempPicks (fst (pressSubmitButton e (s, db))) \<noteq> tempPicks s"
  shows "\<exists>row \<in> set (snd (pressSubmitButton e (s, db))).
      pick_key row = pick_key p \<and> side row = side p \<and> line_value row = line_value p
        \<and> unlock_at row = unlock_at p \<and> locked row = False"
proof -
  let ?w = "\<lparr>league_id = league_id p, user_id = user_id p, season = season p,
                   week = week p, game_id = game_id p, side = side p,
                   line_value = line_value p, unlock_at = unlock_at p, locked = False\<rparr>"
  from assms(3) pressSubmitButton_atomic [of e s db]
  have db': "snd (pressSubmitButton e (s, db))
      = upsert (db_now e) (upsert_payload (tempPicks s)) db"
    by blast
  have "?w \<in> set (upsert_payload (tempPicks s))"
    using assms(2) by (auto simp: upsert_payload_def)
  moreover have "distinct (map pick_key (upsert_payload (tempPicks s)))"
    using assms(1) by (simp only: pick_key_upsert_payload)
  ultimately have "\<exists>row \<in> set (upsert (db_now e) (upsert_payload (tempPicks s)) db).
      holds_written ?w row"
    by (intro upsert_writes)
  then show ?thesis
    unfolding db' by (simp add: holds_written_def pick_key_def)
qed

text \<open>
  Claim C2 at a concrete run. From the empty session of a league with limit 3, the
  selections of games A and B give the session \<open>ex_two\<close>; the selection of C from that
  render raises the alert \<open>All Picks Selected!\<close> and makes the live session \<open>ex_full\<close> with
  picks for A, B and C. Pressing \<open>Submit Picks\<close> in that alert, with the upsert reporting
  no error, runs the \<open>submitAllPicks\<close> of the render \<open>ex_two\<close>: the live session ends
  with no temporary picks, and the table holds rows for A and B only. The Submit button
  of the live render writes all three.
\<close>

theorem prompt_submit_drops_last_pick:
  "selectSides [(ex_env, ''A'', HOME, 1), (ex_env, ''B'', AWAY, 2)] ex_screen = ex_two
   \<and> ShowAlertAfter 500 (AllPicksSelected 3) \<in> set (handlePickSide ex_env ex_two ''C'' HOME 3)
   \<and> selectSide ex_env ''C'' HOME 3 ex_two = ex_full
   \<and> map game_id (tempPicks ex_full) = [''A'', ''B'', ''C'']
   \<and> \<not> upsert_error ex_env
   \<and> tempPicks (fst (pressSubmitInPrompt ex_env ex_two (ex_full, []))) = []
   \<and> map game_id (snd (pressSubmitInPrompt ex_env ex_two (ex_full, []))) = [''A'', ''B'']
   \<and> map game_id (snd (pressSubmitButton ex_env (ex_full, []))) = [''A'', ''B'', ''C'']"
  by (simp add: eval_defs ex_defs ex_two_def pressSubmitInPrompt_def pressSubmitButton_def)

section \<open>Submitted picks and the loaded list\<close>





section \<open>Visibility of a member's picks\<close>

lemma fetchMemberPicks_owner:
  "p \<in> set (fetchMemberPicks scr db) \<Longrightarrow> user_id p = userId scr"
  by (simp add: fetchMemberPicks_def)

text \<open>
  Claim C4. The picks on the screen are those fetched for the member \<open>userId\<close>, so their
  owner is \<open>userId\<close>. For such a pick with unlock time \<open>T\<close> and a viewer who is not its
  owner, \<open>isPickVisible\<close> at clock reading \<open>t\<close> holds exactly when \<open>T \<le> t\<close>; for the owner
  it holds at every clock reading; a pick whose \<open>unlock_at\<close> is absent is visible to every
  viewer at every clock reading.
\<close>

theorem visibility_by_unlock_time:
  assumes "p \<in> set (fetchMemberPicks scr db)" "q \<in> set (fetchMemberPicks scr' db')"
  shows "(currentUserId scr \<noteq> Some (user_id p) \<and> unlock_at p = Some (IsoTime T)
           \<longrightarrow> isPickVisible scr t p = (T \<le> t))
    \<and> (currentUserId scr' = Some (user_id q) \<longrightarrow> isPickVisible scr' t' q)
    \<and> (unlock_at x = None \<longrightarrow> isPickVisible scr'' t'' x)"
  using fetchMemberPicks_owner [OF assms(1)] fetchMemberPicks_owner [OF assms(2)]
  by (simp add: isPickVisible_def)

lemmas member_defs = ex_viewer_def ex_owner_def ex_stored_def ex_open_def ex_other_screen_def
  ex_other_pick_def ex_pick_def newTempPick_def ex_league_def ex_env_def ex_screen_def
  fetchMemberPicks_def

theorem visibility_by_unlock_time_witness:
  "ex_stored \<in> set (fetchMemberPicks ex_viewer [ex_stored, ex_open])
   \<and> ex_stored \<in> set (fetchMemberPicks ex_owner [ex_stored, ex_open])
   \<and> currentUserId ex_viewer \<noteq> Some (user_id ex_stored)
   \<and> unlock_at ex_stored = Some (IsoTime 1757196000000)
   \<and> \<not> isPickVisible ex_viewer 1756886400000 ex_stored
   \<and> isPickVisible ex_viewer 1757199600000 ex_stored
   \<and> isPickVisible ex_owner 1756886400000 ex_stored
   \<and> isPickVisible ex_viewer 1756886400000 ex_open"
proof -
  have a: "ex_stored \<in> set (fetchMemberPicks ex_viewer [ex_stored, ex_open])"
    "ex_stored \<in> set (fetchMemberPicks ex_owner [ex_stored, ex_open])"
    by (simp_all add: member_defs)
  have b: "currentUserId ex_viewer \<noteq> Some (user_id ex_stored)"
    "unlock_at ex_stored = Some (IsoTime 1757196000000)"
    "currentUserId ex_owner = Some (user_id ex_stored)"
    "unlock_at ex_open = None"
    by (simp_all add: member_defs)
  from visibility_by_unlock_time [OF a, of 1757196000000 1756886400000 1756886400000
      ex_open ex_viewer 1756886400000]
    visibility_by_unlock_time [OF a, of 1757196000000 1757199600000] a b
  show ?thesis by simp
qed

text \<open>
  Claim C9 fails as stated: the time is not an input of \<open>isPickVisible\<close> but read from
  the clock inside it. The same pick on the same screen for the same viewer is hidden when
  the clock reads Wednesday 3 September 2025, 08:00 UTC, and visible when it reads
  Saturday 6 September 2025, 23:00 UTC.
\<close>

theorem isPickVisible_reads_clock:
  "isPickVisible ex_viewer 1756886400000 ex_stored \<noteq> isPickVisible ex_viewer 1757199600000 ex_stored"
  by (simp add: isPickVisible_def member_defs)

text \<open>
  Claim C9 as amended. The result of \<open>isPickVisible\<close> is determined by the pick's
  \<open>unlock_at\<close>, by whether the signed-in user is the member whose picks are shown, and by
  the clock reading taken inside the call: two calls that agree on these three return
  the same result, whatever else differs in pick and screen.
\<close>

theorem isPickVisible_determined:
  assumes "(currentUserId scr = Some (userId scr)) = (currentUserId scr' = Some (userId scr'))"
    and "unlock_at p = unlock_at p'"
  shows "isPickVisible scr clock p = isPickVisible scr' clock p'"
  using assms by (simp add: isPickVisible_def)

theorem isPickVisible_determined_witness:
  "(currentUserId ex_viewer = Some (userId ex_viewer))
     = (currentUserId ex_other_screen = Some (userId ex_other_screen))
   \<and> unlock_at ex_stored = unlock_at ex_other_pick
   \<and> ex_stored \<noteq> ex_other_pick
   \<and> isPickVisible ex_viewer 1756886400000 ex_stored
       = isPickVisible ex_other_screen 1756886400000 ex_other_pick"
proof -
  have a: "(currentUserId ex_viewer = Some (userId ex_viewer))
     = (currentUserId ex_other_screen = Some (userId ex_other_screen))"
    by (simp add: member_defs)
  have b: "unlock_at ex_stored = unlock_at ex_other_pick"
    by (simp add: member_defs)
  have c: "ex_stored \<noteq> ex_other_pick"
    by (simp add: member_defs)
  from isPickVisible_determined [OF a b, of 1756886400000] a b c
  show ?thesis by simp
qed

end
